theory Spec2Isabelle
  imports Main "HOL-Library.Word" "HOL-Library.Multiset"
begin

section \<open>The network manager of the Aluminum browser\<close>

text \<open>
  The source is the Zig struct \<open>NetworkManager\<close> with its helper types. The modules it
  imports (\<open>http\<close>, \<open>dns\<close>, \<open>cache\<close>) are outside the repository: their objects are
  opaque states of types \<open>'h\<close>, \<open>'d\<close>, \<open>'c\<close>, and their operations are fields of a
  record of collaborators, each a function from the object's state to a result and the
  new state. A Zig error union \<open>!T\<close> is the sum \<open>error + T\<close>, and \<open>try\<close> is the case
  split that returns \<open>Inl e\<close> at once.
\<close>

subsection \<open>Data\<close>

type_synonym u32 = "32 word"
type_synonym u64 = "64 word"
type_synonym usize = "64 word"

text \<open>A value of Zig's \<open>anyerror\<close>: the error's name.\<close>

datatype error = Error string

text \<open>
  \<open>NetworkConfig\<close>. The type of \<open>cache_expiration_policy\<close> is \<open>cache.ExpirationPolicy\<close>,
  declared outside the repository: the parameter \<open>'p\<close>.
\<close>

record 'p NetworkConfig =
  max_connections_per_host :: u32
  max_total_connections :: u32
  request_timeout :: u64
  dns_servers :: "string list"
  dns_cache_size :: usize
  cache_max_size :: usize
  cache_expiration_policy :: 'p
  ca_bundle_path :: string
  max_retries :: u32
  network_monitor_interval :: u64

record FetchOptions =
  use_cache :: bool
  cache_response :: bool
  use_ssl :: bool

record PendingRequest =
  url :: string
  options :: FetchOptions

text \<open>
  \<open>Response\<close> declares \<open>is_cacheable\<close> and leaves its other fields out
  (``Response-related fields''): functions over responses take any extension of the
  record.
\<close>

record Response =
  is_cacheable :: bool

record SpeedTestResult =
  download_speed :: u64
  upload_speed :: u64
  latency :: u32

text \<open>A \<open>*Connection\<close>: the handle that \<open>acquire\<close> returns.\<close>

datatype Connection_ptr = undefined_ptr | ptr nat

text \<open>
  The calls that \<open>fetch\<close> makes on its collaborators, in the order it makes them. The
  log is a field of the model's state only: it is what the statements about ``performs
  no DNS resolution'' or ``releases the connection'' are read from. \<open>Fetch\<close> stands at
  the entry of \<open>fetch\<close>, where the source writes its \<open>log.info\<close> line. \<open>Acquire\<close>
  records the handle handed out, or \<open>None\<close> when the acquisition failed.
\<close>

datatype call =
    Fetch string FetchOptions
  | CacheGet string
  | Resolve string
  | Acquire string bool "Connection_ptr option"
  | Send Connection_ptr
  | CacheSet string
  | Release Connection_ptr

text \<open>
  The struct \<open>NetworkManager\<close>. \<open>allocator\<close> and \<open>ssl_context\<close> are never used after
  \<open>init\<close> by the functions modelled here and are left out. \<open>'k\<close> is the state of the
  connection pool.
\<close>

record ('h, 'd, 'c, 'k, 'p) NetworkManager =
  http_client :: 'h
  dns_resolver :: 'd
  cache_manager :: 'c
  connection_pool :: 'k
  request_queue :: "PendingRequest list"
  config :: "'p NetworkConfig"
  calls :: "call list"

text \<open>
  The collaborators. \<open>cache_get\<close>, \<open>cache_set\<close>, \<open>cache_updateConfig\<close> are
  \<open>cache.Manager\<close>'s \<open>get\<close>, \<open>set\<close>, \<open>updateConfig\<close>; \<open>dns_resolve\<close> and
  \<open>dns_updateConfig\<close> are \<open>dns.Resolver\<close>'s; \<open>http_updateConfig\<close> is
  \<open>http.Client.updateConfig\<close>. The source gives \<open>extractHost\<close>, \<open>prepareRequest\<close>,
  \<open>sendRequest\<close> and the methods of \<open>ConnectionPool\<close> placeholder bodies
  (``Implementation omitted for brevity''); \<open>fetch\<close> and \<open>updateConfig\<close> are modelled
  over any bodies of their declared types, and the placeholders of the pool are given
  below as they stand. \<open>'q\<close> is \<open>http.Request\<close>, \<open>'r\<close> the fields of \<open>Response\<close>
  that the source leaves out.
\<close>

record ('h, 'd, 'c, 'k, 'p, 'q, 'r) Collaborators =
  cache_get :: "string \<Rightarrow> 'c \<Rightarrow> (error + 'r Response_scheme option) \<times> 'c"
  cache_set :: "string \<Rightarrow> 'r Response_scheme \<Rightarrow> 'c \<Rightarrow> (error + unit) \<times> 'c"
  cache_updateConfig :: "usize \<times> 'p \<Rightarrow> 'c \<Rightarrow> (error + unit) \<times> 'c"
  dns_resolve :: "string \<Rightarrow> 'd \<Rightarrow> (error + string) \<times> 'd"
  dns_updateConfig :: "string list \<times> usize \<Rightarrow> 'd \<Rightarrow> (error + unit) \<times> 'd"
  http_updateConfig :: "u32 \<times> u64 \<Rightarrow> 'h \<Rightarrow> (error + unit) \<times> 'h"
  extractHost :: "string \<Rightarrow> error + string"
  prepareRequest :: "string \<Rightarrow> FetchOptions \<Rightarrow> error + 'q"
  sendRequest :: "Connection_ptr \<Rightarrow> 'q \<Rightarrow> 'h \<Rightarrow> (error + 'r Response_scheme) \<times> 'h"
  pool_acquire :: "string \<Rightarrow> bool \<Rightarrow> 'k \<Rightarrow> (error + Connection_ptr) \<times> 'k"
  pool_release :: "Connection_ptr \<Rightarrow> 'k \<Rightarrow> 'k"
  pool_setMaxConnections :: "u32 \<Rightarrow> 'k \<Rightarrow> (error + unit) \<times> 'k"

subsection \<open>Configuration updates\<close>

text \<open>
  \<open>updateConfig\<close>: the assignment to \<open>self.config\<close> comes first, then the four pushes,
  each under \<open>try\<close>.
\<close>

definition updateConfig ::
  "('h, 'd, 'c, 'k, 'p, 'q, 'r) Collaborators \<Rightarrow> 'p NetworkConfig \<Rightarrow>
   ('h, 'd, 'c, 'k, 'p) NetworkManager \<Rightarrow> (error + unit) \<times> ('h, 'd, 'c, 'k, 'p) NetworkManager"
where
  "updateConfig X new_config self =
    (let s0 = self\<lparr>config := new_config\<rparr> in
     case http_updateConfig X
            (max_connections_per_host new_config, request_timeout new_config) (http_client s0) of
       (Inl e, h) \<Rightarrow> (Inl e, s0\<lparr>http_client := h\<rparr>)
     | (Inr _, h) \<Rightarrow>
    (let s1 = s0\<lparr>http_client := h\<rparr> in
     case dns_updateConfig X (dns_servers new_config, dns_cache_size new_config) (dns_resolver s1) of
       (Inl e, d) \<Rightarrow> (Inl e, s1\<lparr>dns_resolver := d\<rparr>)
     | (Inr _, d) \<Rightarrow>
    (let s2 = s1\<lparr>dns_resolver := d\<rparr> in
     case cache_updateConfig X
            (cache_max_size new_config, cache_expiration_policy new_config) (cache_manager s2) of
       (Inl e, c) \<Rightarrow> (Inl e, s2\<lparr>cache_manager := c\<rparr>)
     | (Inr _, c) \<Rightarrow>
    (let s3 = s2\<lparr>cache_manager := c\<rparr> in
     case pool_setMaxConnections X (max_total_connections new_config) (connection_pool s3) of
       (Inl e, k) \<Rightarrow> (Inl e, s3\<lparr>connection_pool := k\<rparr>)
     | (Inr _, k) \<Rightarrow> (Inr (), s3\<lparr>connection_pool := k\<rparr>)))))"

text \<open>
  \<open>adjustSettingsBasedOnNetworkConditions\<close>: \<open>new_config\<close> is the local copy of
  \<open>self.config\<close> after the three-way branch on the measured download speed.
\<close>

definition new_config :: "'p NetworkConfig \<Rightarrow> SpeedTestResult \<Rightarrow> 'p NetworkConfig" where
  "new_config cfg speed_test_result =
    (if download_speed speed_test_result < 1000000
     then cfg\<lparr>max_connections_per_host := 2, request_timeout := 30000\<rparr>
     else if download_speed speed_test_result < 10000000
     then cfg\<lparr>max_connections_per_host := 4, request_timeout := 15000\<rparr>
     else cfg\<lparr>max_connections_per_host := 6, request_timeout := 10000\<rparr>)"

definition adjustSettingsBasedOnNetworkConditions ::
  "('h, 'd, 'c, 'k, 'p, 'q, 'r) Collaborators \<Rightarrow> SpeedTestResult \<Rightarrow>
   ('h, 'd, 'c, 'k, 'p) NetworkManager \<Rightarrow> (error + unit) \<times> ('h, 'd, 'c, 'k, 'p) NetworkManager"
where
  "adjustSettingsBasedOnNetworkConditions X speed_test_result self =
     updateConfig X (new_config (config self) speed_test_result) self"

subsection \<open>Fetching\<close>

text \<open>
  \<open>fetch\<close> in three parts, one for each scope of the source. \<open>with_connection\<close> is
  the code after the \<open>defer\<close> line (prepare, send, store): whatever it returns, value or
  error, \<open>after_cache\<close> runs the deferred \<open>release\<close> on the state it leaves.
\<close>

definition with_connection ::
  "('h, 'd, 'c, 'k, 'p, 'q, 'r) Collaborators \<Rightarrow> string \<Rightarrow> FetchOptions \<Rightarrow> Connection_ptr \<Rightarrow>
   ('h, 'd, 'c, 'k, 'p) NetworkManager \<Rightarrow>
   (error + 'r Response_scheme) \<times> ('h, 'd, 'c, 'k, 'p) NetworkManager"
where
  "with_connection X u opts conn self =
    (case prepareRequest X u opts of
       Inl e \<Rightarrow> (Inl e, self)
     | Inr request \<Rightarrow>
    (case sendRequest X conn request (http_client self) of (sent, h) \<Rightarrow>
    (let s1 = self\<lparr>http_client := h, calls := calls self @ [Send conn]\<rparr> in
     case sent of
       Inl e \<Rightarrow> (Inl e, s1)
     | Inr response \<Rightarrow>
         if cache_response opts \<and> is_cacheable response
         then (case cache_set X u response (cache_manager s1) of (stored, c) \<Rightarrow>
                (let s2 = s1\<lparr>cache_manager := c, calls := calls s1 @ [CacheSet u]\<rparr> in
                 case stored of
                   Inl e \<Rightarrow> (Inl e, s2)
                 | Inr _ \<Rightarrow> (Inr response, s2)))
         else (Inr response, s1))))"

definition after_cache ::
  "('h, 'd, 'c, 'k, 'p, 'q, 'r) Collaborators \<Rightarrow> string \<Rightarrow> FetchOptions \<Rightarrow>
   ('h, 'd, 'c, 'k, 'p) NetworkManager \<Rightarrow>
   (error + 'r Response_scheme) \<times> ('h, 'd, 'c, 'k, 'p) NetworkManager"
where
  "after_cache X u opts self =
    (case extractHost X u of
       Inl e \<Rightarrow> (Inl e, self)
     | Inr host \<Rightarrow>
    (case dns_resolve X host (dns_resolver self) of (resolved, d) \<Rightarrow>
    (let s1 = self\<lparr>dns_resolver := d, calls := calls self @ [Resolve host]\<rparr> in
     case resolved of
       Inl e \<Rightarrow> (Inl e, s1)
     | Inr ip \<Rightarrow>
    (case pool_acquire X ip (use_ssl opts) (connection_pool s1) of (acquired, k) \<Rightarrow>
     case acquired of
       Inl e \<Rightarrow>
         (Inl e, s1\<lparr>connection_pool := k, calls := calls s1 @ [Acquire ip (use_ssl opts) None]\<rparr>)
     | Inr conn \<Rightarrow>
    (let s2 = s1\<lparr>connection_pool := k,
                 calls := calls s1 @ [Acquire ip (use_ssl opts) (Some conn)]\<rparr> in
     case with_connection X u opts conn s2 of (out, s3) \<Rightarrow>
       (out, s3\<lparr>connection_pool := pool_release X conn (connection_pool s3),
                calls := calls s3 @ [Release conn]\<rparr>))))))"

definition fetch ::
  "('h, 'd, 'c, 'k, 'p, 'q, 'r) Collaborators \<Rightarrow> string \<Rightarrow> FetchOptions \<Rightarrow>
   ('h, 'd, 'c, 'k, 'p) NetworkManager \<Rightarrow>
   (error + 'r Response_scheme) \<times> ('h, 'd, 'c, 'k, 'p) NetworkManager"
where
  "fetch X u opts self =
    (let s0 = self\<lparr>calls := calls self @ [Fetch u opts]\<rparr> in
     if use_cache opts
     then (case cache_get X u (cache_manager s0) of (looked_up, c) \<Rightarrow>
            (let s1 = s0\<lparr>cache_manager := c, calls := calls s0 @ [CacheGet u]\<rparr> in
             case looked_up of
               Inl e \<Rightarrow> (Inl e, s1)
             | Inr (Some cached_response) \<Rightarrow> (Inr cached_response, s1)
             | Inr None \<Rightarrow> after_cache X u opts s1))
     else after_cache X u opts s0)"

text \<open>The calls a run has added to the log.\<close>

definition new_calls ::
  "('h, 'd, 'c, 'k, 'p) NetworkManager \<Rightarrow> ('h, 'd, 'c, 'k, 'p) NetworkManager \<Rightarrow> call list"
where
  "new_calls before after = drop (length (calls before)) (calls after)"


fun is_resolve :: "call \<Rightarrow> bool" where
  "is_resolve (Resolve _) = True"
| "is_resolve _ = False"

fun is_acquire :: "call \<Rightarrow> bool" where
  "is_acquire (Acquire _ _ _) = True"
| "is_acquire _ = False"

fun is_send :: "call \<Rightarrow> bool" where
  "is_send (Send _) = True"
| "is_send _ = False"

fun is_release :: "call \<Rightarrow> bool" where
  "is_release (Release _) = True"
| "is_release _ = False"

text \<open>The entries that a stretch of the log shows \<open>fetch\<close> being called on, in order.\<close>

fun fetched :: "call list \<Rightarrow> PendingRequest list" where
  "fetched [] = []"
| "fetched (Fetch u opts # cs) = \<lparr>url = u, options = opts\<rparr> # fetched cs"
| "fetched (_ # cs) = fetched cs"

subsection \<open>The request queue\<close>

text \<open>
  \<open>queueRequest\<close> appends to the \<open>ArrayList\<close>. Its two \<open>try\<close>s guard memory allocation
  only, which the model takes to succeed.
\<close>

definition queueRequest ::
  "string \<Rightarrow> FetchOptions \<Rightarrow> ('h, 'd, 'c, 'k, 'p) NetworkManager \<Rightarrow> ('h, 'd, 'c, 'k, 'p) NetworkManager"
where
  "queueRequest u opts self =
     self\<lparr>request_queue := request_queue self @ [\<lparr>url = u, options = opts\<rparr>]\<rparr>"

text \<open>\<open>std.ArrayList.popOrNull\<close>: removes and returns the last item, \<open>null\<close> when empty.\<close>

definition popOrNull :: "'a list \<Rightarrow> ('a \<times> 'a list) option" where
  "popOrNull xs = (if xs = [] then None else Some (last xs, butlast xs))"

lemma with_connection_queue:
  "request_queue (snd (with_connection X u opts conn self)) = request_queue self"
  by (simp add: with_connection_def Let_def split: prod.splits sum.splits)

lemma after_cache_queue:
  "request_queue (snd (after_cache X u opts self)) = request_queue self"
proof -
  have "request_queue s3 = request_queue s2"
    if "with_connection X u opts conn s2 = (out, s3)" for conn s2 out s3
    using with_connection_queue [of X u opts conn s2] that by simp
  then show ?thesis
    by (simp add: after_cache_def Let_def split: prod.splits sum.splits)
qed

lemma fetch_queue: "request_queue (snd (fetch X u opts self)) = request_queue self"
  by (simp add: fetch_def Let_def after_cache_queue split: prod.splits sum.splits option.splits)

lemma fetch_queue_eq:
  "(out, s1) = fetch X u opts (self\<lparr>request_queue := rest\<rparr>) \<Longrightarrow> request_queue s1 = rest"
  using fetch_queue [of X u opts "self\<lparr>request_queue := rest\<rparr>"]
  by (cases "fetch X u opts (self\<lparr>request_queue := rest\<rparr>)") simp

text \<open>
  \<open>processQueue\<close>: the \<open>while\<close> loop pops an entry, fetches it under \<open>try\<close>, and goes
  round again. The deferred \<open>free\<close> of the entry's url has no effect on the model.
\<close>

function processQueue ::
  "('h, 'd, 'c, 'k, 'p, 'q, 'r) Collaborators \<Rightarrow> ('h, 'd, 'c, 'k, 'p) NetworkManager \<Rightarrow>
   (error + unit) \<times> ('h, 'd, 'c, 'k, 'p) NetworkManager"
where
  "processQueue X self =
    (case popOrNull (request_queue self) of
       None \<Rightarrow> (Inr (), self)
     | Some (pending_request, rest) \<Rightarrow>
        (case fetch X (url pending_request) (options pending_request)
                (self\<lparr>request_queue := rest\<rparr>) of
           (Inl e, s1) \<Rightarrow> (Inl e, s1)
         | (Inr _, s1) \<Rightarrow> processQueue X s1))"
  by pat_completeness auto
termination
proof (relation "measure (\<lambda>(X, self). length (request_queue self))", goal_cases)
  case 1
  show ?case by simp
next
  case (2 X self x2 pending_request rest out s1 r)
  from 2(1,2) have "request_queue self \<noteq> []" and "rest = butlast (request_queue self)"
    by (auto simp: popOrNull_def split: if_splits)
  moreover from 2(3) have "request_queue s1 = rest"
    by (rule fetch_queue_eq)
  ultimately show ?case
    by (simp add: length_greater_0_conv [symmetric] del: length_greater_0_conv)
qed

subsection \<open>The connection pool of the source\<close>

text \<open>
  \<open>ConnectionPool\<close> is a struct without fields, and each of its methods discards its
  arguments: \<open>init\<close> and \<open>setMaxConnections\<close> drop the ceiling, \<open>acquire\<close> returns the
  pointer \<open>undefined\<close> and cannot fail, \<open>activeConnections\<close> returns 0.
\<close>

datatype ConnectionPool = ConnectionPool

definition init :: "u32 \<Rightarrow> error + ConnectionPool" where
  "init max_connections = Inr ConnectionPool"

definition acquire :: "string \<Rightarrow> bool \<Rightarrow> ConnectionPool \<Rightarrow> (error + Connection_ptr) \<times> ConnectionPool" where
  "acquire ip ssl self = (Inr undefined_ptr, self)"

definition release :: "Connection_ptr \<Rightarrow> ConnectionPool \<Rightarrow> ConnectionPool" where
  "release conn self = self"

definition setMaxConnections :: "u32 \<Rightarrow> ConnectionPool \<Rightarrow> (error + unit) \<times> ConnectionPool" where
  "setMaxConnections max_connections self = (Inr (), self)"

definition activeConnections :: "ConnectionPool \<Rightarrow> u32" where
  "activeConnections self = 0"

text \<open>
  A sequence of \<open>acquire\<close> and \<open>release\<close> calls on the pool. \<open>busy_connections\<close> runs
  it and keeps the handles that have been handed out and not yet given back.
\<close>

datatype pool_op = PAcquire string bool | PRelease Connection_ptr

fun busy_connections ::
  "ConnectionPool \<Rightarrow> Connection_ptr list \<Rightarrow> pool_op list \<Rightarrow> Connection_ptr list"
where
  "busy_connections self busy [] = busy"
| "busy_connections self busy (PAcquire ip ssl # ops) =
    (case acquire ip ssl self of
       (Inl e, self') \<Rightarrow> busy_connections self' busy ops
     | (Inr conn, self') \<Rightarrow> busy_connections self' (conn # busy) ops)"
| "busy_connections self busy (PRelease conn # ops) =
     busy_connections (release conn self) (remove1 conn busy) ops"

subsection \<open>Retrying\<close>






subsection \<open>A simulated environment\<close>

text \<open>
  Concrete collaborators, for running the model on explicit inputs. Each imported
  component keeps the configuration last pushed to it; the cache is an association list;
  the resolver answers with the host name itself; the request is the url; the pool is the
  source's own. Variants that fail at one stage are record updates of \<open>sim\<close>.
\<close>

type_synonym sim_cache = "(usize \<times> bool) \<times> (string \<times> Response) list"

type_synonym sim_manager =
  "(u32 \<times> u64, string list \<times> usize, sim_cache, ConnectionPool, bool) NetworkManager"

type_synonym sim_collaborators =
  "(u32 \<times> u64, string list \<times> usize, sim_cache, ConnectionPool, bool, string, unit) Collaborators"

definition sim_cache_get :: "string \<Rightarrow> sim_cache \<Rightarrow> (error + Response option) \<times> sim_cache" where
  "sim_cache_get u c = (Inr (map_of (snd c) u), c)"

definition sim_cache_set :: "string \<Rightarrow> Response \<Rightarrow> sim_cache \<Rightarrow> (error + unit) \<times> sim_cache" where
  "sim_cache_set u r c = (Inr (), (fst c, (u, r) # snd c))"

definition sim_cache_updateConfig :: "usize \<times> bool \<Rightarrow> sim_cache \<Rightarrow> (error + unit) \<times> sim_cache" where
  "sim_cache_updateConfig cfg c = (Inr (), (cfg, snd c))"

definition sim_dns_resolve ::
  "string \<Rightarrow> string list \<times> usize \<Rightarrow> (error + string) \<times> (string list \<times> usize)" where
  "sim_dns_resolve host d = (Inr host, d)"

definition sim_dns_updateConfig ::
  "string list \<times> usize \<Rightarrow> string list \<times> usize \<Rightarrow> (error + unit) \<times> (string list \<times> usize)" where
  "sim_dns_updateConfig cfg d = (Inr (), cfg)"

definition sim_http_updateConfig :: "u32 \<times> u64 \<Rightarrow> u32 \<times> u64 \<Rightarrow> (error + unit) \<times> (u32 \<times> u64)" where
  "sim_http_updateConfig cfg h = (Inr (), cfg)"

definition sim_extractHost :: "string \<Rightarrow> error + string" where
  "sim_extractHost u = Inr u"

definition sim_prepareRequest :: "string \<Rightarrow> FetchOptions \<Rightarrow> error + string" where
  "sim_prepareRequest u opts = Inr u"

text \<open>The simulated server marks a response cacheable unless the url is \<open>''/private''\<close>.\<close>

definition sim_sendRequest ::
  "Connection_ptr \<Rightarrow> string \<Rightarrow> u32 \<times> u64 \<Rightarrow> (error + Response) \<times> (u32 \<times> u64)" where
  "sim_sendRequest conn request h = (Inr \<lparr>is_cacheable = (request \<noteq> ''/private'')\<rparr>, h)"

definition sim :: sim_collaborators where
  "sim = \<lparr>cache_get = sim_cache_get, cache_set = sim_cache_set,
          cache_updateConfig = sim_cache_updateConfig,
          dns_resolve = sim_dns_resolve, dns_updateConfig = sim_dns_updateConfig,
          http_updateConfig = sim_http_updateConfig,
          extractHost = sim_extractHost, prepareRequest = sim_prepareRequest,
          sendRequest = sim_sendRequest,
          pool_acquire = acquire, pool_release = release,
          pool_setMaxConnections = setMaxConnections\<rparr>"

text \<open>Stages that fail.\<close>

definition failing_dns_updateConfig ::
  "string list \<times> usize \<Rightarrow> string list \<times> usize \<Rightarrow> (error + unit) \<times> (string list \<times> usize)" where
  "failing_dns_updateConfig cfg d = (Inl (Error ''InvalidNameserver''), d)"

definition failing_dns_resolve ::
  "string \<Rightarrow> string list \<times> usize \<Rightarrow> (error + string) \<times> (string list \<times> usize)" where
  "failing_dns_resolve host d =
     (if host = ''down.example'' then Inl (Error ''ResolutionError'') else Inr host, d)"

definition failing_sendRequest ::
  "Connection_ptr \<Rightarrow> string \<Rightarrow> u32 \<times> u64 \<Rightarrow> (error + Response) \<times> (u32 \<times> u64)" where
  "failing_sendRequest conn request h = (Inl (Error ''ConnectionReset''), h)"

definition failing_cache_set :: "string \<Rightarrow> Response \<Rightarrow> sim_cache \<Rightarrow> (error + unit) \<times> sim_cache" where
  "failing_cache_set u r c = (Inl (Error ''OutOfMemory''), c)"

text \<open>Two configurations that differ in every pushed field, and a manager that holds the first.\<close>

definition cfg_a :: "bool NetworkConfig" where
  "cfg_a = \<lparr>max_connections_per_host = 6, max_total_connections = 32, request_timeout = 10000,
            dns_servers = [''8.8.8.8''], dns_cache_size = 100, cache_max_size = 4096,
            cache_expiration_policy = False, ca_bundle_path = ''/etc/ssl/ca.pem'',
            max_retries = 3, network_monitor_interval = 60000\<rparr>"

definition cfg_b :: "bool NetworkConfig" where
  "cfg_b = \<lparr>max_connections_per_host = 2, max_total_connections = 8, request_timeout = 30000,
            dns_servers = [''1.1.1.1''], dns_cache_size = 10, cache_max_size = 1024,
            cache_expiration_policy = True, ca_bundle_path = ''/etc/ssl/ca.pem'',
            max_retries = 5, network_monitor_interval = 60000\<rparr>"

definition manager_a :: sim_manager where
  "manager_a = \<lparr>http_client = (6, 10000), dns_resolver = ([''8.8.8.8''], 100),
                cache_manager = ((4096, False), []), connection_pool = ConnectionPool,
                request_queue = [], config = cfg_a, calls = []\<rparr>"


text \<open>
  In the simulated environment, every component holds its share of the configuration
  \<open>cfg\<close> (the pool of the source keeps none).
\<close>

definition holds_config :: "bool NetworkConfig \<Rightarrow> sim_manager \<Rightarrow> bool" where
  "holds_config cfg self \<longleftrightarrow>
     config self = cfg \<and>
     http_client self = (max_connections_per_host cfg, request_timeout cfg) \<and>
     dns_resolver self = (dns_servers cfg, dns_cache_size cfg) \<and>
     fst (cache_manager self) = (cache_max_size cfg, cache_expiration_policy cfg)"

text \<open>The defaults of \<open>FetchOptions\<close>, and options that bypass the cache.\<close>

definition default_options :: FetchOptions where
  "default_options = \<lparr>use_cache = True, cache_response = True, use_ssl = True\<rparr>"

definition no_cache :: FetchOptions where
  "no_cache = \<lparr>use_cache = False, cache_response = False, use_ssl = True\<rparr>"

text \<open>The manager after one fetch of \<open>''https://example.com/a''\<close> on the empty cache.\<close>

definition manager_b :: sim_manager where
  "manager_b = manager_a
     \<lparr>cache_manager := ((4096, False), [(''https://example.com/a'', \<lparr>is_cacheable = True\<rparr>)]),
      calls := [Fetch ''https://example.com/a'' default_options, CacheGet ''https://example.com/a'',
                Resolve ''https://example.com/a'',
                Acquire ''https://example.com/a'' True (Some undefined_ptr),
                Send undefined_ptr, CacheSet ''https://example.com/a'', Release undefined_ptr]\<rparr>"

text \<open>Two queues of two requests each, built by \<open>queueRequest\<close>.\<close>

definition queued_ab :: sim_manager where
  "queued_ab = queueRequest ''/b'' no_cache (queueRequest ''/a'' no_cache manager_a)"

definition queued_up_down :: sim_manager where
  "queued_up_down =
     queueRequest ''down.example'' no_cache (queueRequest ''up.example'' no_cache manager_a)"

section \<open>Properties\<close>

lemma updateConfig_config: "config (snd (updateConfig X cfg self)) = cfg"
  by (simp add: updateConfig_def Let_def split: prod.splits sum.splits)

lemma updateConfig_http_client:
  "http_client (snd (updateConfig X cfg self)) =
   snd (http_updateConfig X (max_connections_per_host cfg, request_timeout cfg) (http_client self))"
  by (simp add: updateConfig_def Let_def split: prod.splits sum.splits)

subsection \<open>Adjusting to the measured speed\<close>

text \<open>
  C5. A measured download speed of 500000 bit/s sets \<open>max_connections_per_host\<close> to 2 and
  \<open>request_timeout\<close> to 30000 in the manager's configuration, and these two values are
  what the HTTP client is handed. Each band has its fixed pair: below 1000000 it is
  (2, 30000), from 1000000 and below 10000000 it is (4, 15000), from 10000000 on it is
  (6, 10000).
\<close>

theorem adjustSettings_speed_bands:
  fixes X :: "('h, 'd, 'c, 'k, 'p, 'q, 'r) Collaborators"
    and self :: "('h, 'd, 'c, 'k, 'p) NetworkManager"
  assumes run: "adjustSettingsBasedOnNetworkConditions X r self = (out, after)"
  shows "(download_speed r = 500000 \<longrightarrow>
            max_connections_per_host (config after) = 2 \<and> request_timeout (config after) = 30000 \<and>
            http_client after = snd (http_updateConfig X (2, 30000) (http_client self))) \<and>
         (download_speed r < 1000000 \<longrightarrow>
            max_connections_per_host (config after) = 2 \<and> request_timeout (config after) = 30000 \<and>
            http_client after = snd (http_updateConfig X (2, 30000) (http_client self))) \<and>
         (1000000 \<le> download_speed r \<and> download_speed r < 10000000 \<longrightarrow>
            max_connections_per_host (config after) = 4 \<and> request_timeout (config after) = 15000 \<and>
            http_client after = snd (http_updateConfig X (4, 15000) (http_client self))) \<and>
         (10000000 \<le> download_speed r \<longrightarrow>
            max_connections_per_host (config after) = 6 \<and> request_timeout (config after) = 10000 \<and>
            http_client after = snd (http_updateConfig X (6, 10000) (http_client self)))"
proof -
  have low: "(500000 :: u64) < 1000000" by simp
  have after: "after = snd (updateConfig X (new_config (config self) r) self)"
    using run by (simp add: adjustSettingsBasedOnNetworkConditions_def)
  have mid: "download_speed r < 10000000" if "download_speed r < 1000000"
  proof -
    have "(1000000 :: u64) < 10000000" by simp
    with that show ?thesis by (rule less_trans)
  qed
  show ?thesis
    unfolding after using low mid
    by (auto simp: updateConfig_config updateConfig_http_client new_config_def not_less [symmetric])
qed

theorem adjustSettings_speed_bands_witness:
  "adjustSettingsBasedOnNetworkConditions sim
       \<lparr>download_speed = 500000, upload_speed = 100000, latency = 80\<rparr> manager_a
     = (Inr (), manager_a\<lparr>http_client := (2, 30000), dns_resolver := ([''8.8.8.8''], 100),
                cache_manager := ((4096, False), []), connection_pool := ConnectionPool,
                config := cfg_a\<lparr>max_connections_per_host := 2, request_timeout := 30000\<rparr>\<rparr>) \<and>
   max_connections_per_host (config (manager_a\<lparr>http_client := (2, 30000),
                dns_resolver := ([''8.8.8.8''], 100),
                cache_manager := ((4096, False), []), connection_pool := ConnectionPool,
                config := cfg_a\<lparr>max_connections_per_host := 2, request_timeout := 30000\<rparr>\<rparr>)) = 2"
proof -
  have run: "adjustSettingsBasedOnNetworkConditions sim
       \<lparr>download_speed = 500000, upload_speed = 100000, latency = 80\<rparr> manager_a
     = (Inr (), manager_a\<lparr>http_client := (2, 30000), dns_resolver := ([''8.8.8.8''], 100),
                cache_manager := ((4096, False), []), connection_pool := ConnectionPool,
                config := cfg_a\<lparr>max_connections_per_host := 2, request_timeout := 30000\<rparr>\<rparr>)"
    by (simp add: adjustSettingsBasedOnNetworkConditions_def updateConfig_def new_config_def
          manager_a_def cfg_a_def sim_def sim_http_updateConfig_def sim_dns_updateConfig_def
          sim_cache_updateConfig_def setMaxConnections_def)
  from adjustSettings_speed_bands [OF run] run show ?thesis by simp
qed

text \<open>
  C10. The adjustment changes \<open>max_connections_per_host\<close> and \<open>request_timeout\<close> only:
  the configuration it computes, which is the one handed to \<open>updateConfig\<close> and the one
  the manager holds afterwards, has the previous value in each of the other eight fields.
\<close>

theorem adjustSettings_frame:
  fixes X :: "('h, 'd, 'c, 'k, 'p, 'q, 'r) Collaborators"
    and self :: "('h, 'd, 'c, 'k, 'p) NetworkManager"
  shows "config (snd (adjustSettingsBasedOnNetworkConditions X r self)) = new_config (config self) r \<and>
         max_total_connections (new_config (config self) r) = max_total_connections (config self) \<and>
         dns_servers (new_config (config self) r) = dns_servers (config self) \<and>
         dns_cache_size (new_config (config self) r) = dns_cache_size (config self) \<and>
         cache_max_size (new_config (config self) r) = cache_max_size (config self) \<and>
         cache_expiration_policy (new_config (config self) r) = cache_expiration_policy (config self) \<and>
         ca_bundle_path (new_config (config self) r) = ca_bundle_path (config self) \<and>
         max_retries (new_config (config self) r) = max_retries (config self) \<and>
         network_monitor_interval (new_config (config self) r) = network_monitor_interval (config self)"
  by (simp add: adjustSettingsBasedOnNetworkConditions_def updateConfig_config new_config_def)

subsection \<open>Configuration updates are stepwise\<close>

text \<open>
  C9, as the source has it. \<open>updateConfig\<close> overwrites \<open>self.config\<close> first and then
  pushes to the HTTP client, the DNS resolver, the cache manager and the connection pool,
  in this order, stopping at the first push that fails. So \<open>self.config\<close> and the HTTP
  client's state are always those of the new configuration's push; a component after the
  failing one is left as it was, the error is returned, and nothing is rolled back. When
  the four pushes succeed, every component has received the new configuration. The
  request queue is not touched.
\<close>

theorem updateConfig_stepwise:
  fixes X :: "('h, 'd, 'c, 'k, 'p, 'q, 'r) Collaborators"
    and self :: "('h, 'd, 'c, 'k, 'p) NetworkManager"
  assumes run: "updateConfig X cfg self = (out, after)"
    and http: "http_updateConfig X (max_connections_per_host cfg, request_timeout cfg)
                 (http_client self) = (rh, h)"
    and dns: "dns_updateConfig X (dns_servers cfg, dns_cache_size cfg) (dns_resolver self) = (rd, d)"
    and cache: "cache_updateConfig X (cache_max_size cfg, cache_expiration_policy cfg)
                  (cache_manager self) = (rc, c)"
    and pool: "pool_setMaxConnections X (max_total_connections cfg) (connection_pool self) = (rk, k)"
  shows "config after = cfg \<and> http_client after = h \<and>
         request_queue after = request_queue self \<and>
         (case rh of
            Inl e \<Rightarrow> out = Inl e \<and> dns_resolver after = dns_resolver self \<and>
                     cache_manager after = cache_manager self \<and>
                     connection_pool after = connection_pool self
          | Inr _ \<Rightarrow> dns_resolver after = d \<and>
         (case rd of
            Inl e \<Rightarrow> out = Inl e \<and> cache_manager after = cache_manager self \<and>
                     connection_pool after = connection_pool self
          | Inr _ \<Rightarrow> cache_manager after = c \<and>
         (case rc of
            Inl e \<Rightarrow> out = Inl e \<and> connection_pool after = connection_pool self
          | Inr _ \<Rightarrow> connection_pool after = k \<and> out = rk)))"
proof (cases rh)
  case (Inl e)
  with run http show ?thesis
    by (auto simp: updateConfig_def Let_def)
next
  case rh: (Inr uh)
  show ?thesis
  proof (cases rd)
    case (Inl e)
    with run http dns rh show ?thesis
      by (auto simp: updateConfig_def Let_def)
  next
    case rd: (Inr ud)
    show ?thesis
    proof (cases rc)
      case (Inl e)
      with run http dns cache rh rd show ?thesis
        by (auto simp: updateConfig_def Let_def)
    next
      case rc: (Inr uc)
      with run http dns cache pool rh rd show ?thesis
        by (cases rk) (auto simp: updateConfig_def Let_def)
    qed
  qed
qed

lemma updateConfig_rejected_by_dns:
  "updateConfig (sim\<lparr>dns_updateConfig := failing_dns_updateConfig\<rparr>) cfg_b manager_a =
     (Inl (Error ''InvalidNameserver''), manager_a\<lparr>config := cfg_b, http_client := (2, 30000)\<rparr>)"
  by (simp add: updateConfig_def Let_def sim_def sim_http_updateConfig_def
        failing_dns_updateConfig_def cfg_b_def manager_a_def)

theorem updateConfig_stepwise_witness:
  "config (manager_a\<lparr>config := cfg_b, http_client := (2, 30000)\<rparr>) = cfg_b \<and>
   http_client (manager_a\<lparr>config := cfg_b, http_client := (2, 30000)\<rparr>) = (2, 30000) \<and>
   dns_resolver (manager_a\<lparr>config := cfg_b, http_client := (2, 30000)\<rparr>) = dns_resolver manager_a \<and>
   cache_manager (manager_a\<lparr>config := cfg_b, http_client := (2, 30000)\<rparr>) = cache_manager manager_a"
proof -
  let ?X = "sim\<lparr>dns_updateConfig := failing_dns_updateConfig\<rparr>"
  have http: "http_updateConfig ?X (max_connections_per_host cfg_b, request_timeout cfg_b)
                (http_client manager_a) = (Inr (), (2, 30000))"
    by (simp add: sim_def sim_http_updateConfig_def cfg_b_def)
  have dns: "dns_updateConfig ?X (dns_servers cfg_b, dns_cache_size cfg_b) (dns_resolver manager_a)
               = (Inl (Error ''InvalidNameserver''), dns_resolver manager_a)"
    by (simp add: failing_dns_updateConfig_def)
  have cache: "cache_updateConfig ?X (cache_max_size cfg_b, cache_expiration_policy cfg_b)
                 (cache_manager manager_a) = (Inr (), ((1024, True), []))"
    by (simp add: sim_def sim_cache_updateConfig_def cfg_b_def manager_a_def)
  have pool: "pool_setMaxConnections ?X (max_total_connections cfg_b) (connection_pool manager_a)
                = (Inr (), ConnectionPool)"
    by (simp add: sim_def setMaxConnections_def manager_a_def)
  from updateConfig_stepwise [OF updateConfig_rejected_by_dns http dns cache pool]
  show ?thesis by simp
qed

text \<open>
  The claim as stated fails: in the simulated environment the manager holds \<open>cfg_a\<close> in
  full; an update to \<open>cfg_b\<close> that the DNS resolver rejects leaves the manager holding
  neither \<open>cfg_a\<close> in full nor \<open>cfg_b\<close> in full (\<open>self.config\<close> and the HTTP
  client have the new values, the resolver and the cache the old ones).
\<close>

theorem updateConfig_atomic_counterexample:
  "holds_config cfg_a manager_a \<and>
   fst (updateConfig (sim\<lparr>dns_updateConfig := failing_dns_updateConfig\<rparr>) cfg_b manager_a)
     = Inl (Error ''InvalidNameserver'') \<and>
   \<not> holds_config cfg_a
       (snd (updateConfig (sim\<lparr>dns_updateConfig := failing_dns_updateConfig\<rparr>) cfg_b manager_a)) \<and>
   \<not> holds_config cfg_b
       (snd (updateConfig (sim\<lparr>dns_updateConfig := failing_dns_updateConfig\<rparr>) cfg_b manager_a)) \<and>
   config (snd (updateConfig (sim\<lparr>dns_updateConfig := failing_dns_updateConfig\<rparr>) cfg_b manager_a))
     = cfg_b \<and>
   dns_resolver
       (snd (updateConfig (sim\<lparr>dns_updateConfig := failing_dns_updateConfig\<rparr>) cfg_b manager_a))
     = (dns_servers cfg_a, dns_cache_size cfg_a)"
  unfolding updateConfig_rejected_by_dns
  by (simp add: holds_config_def manager_a_def cfg_a_def cfg_b_def)


subsection \<open>What one fetch calls, and in which order\<close>

lemma with_connection_calls:
  "\<exists>evs. calls (snd (with_connection X u opts conn self)) = calls self @ evs \<and>
         (evs = [] \<or> evs = [Send conn] \<or> evs = [Send conn, CacheSet u])"
  by (auto simp: with_connection_def Let_def split: prod.splits sum.splits)

lemma with_connection_pool:
  "connection_pool (snd (with_connection X u opts conn self)) = connection_pool self"
  by (simp add: with_connection_def Let_def split: prod.splits sum.splits)

lemma after_cache_calls:
  "\<exists>evs. calls (snd (after_cache X u opts self)) = calls self @ evs \<and>
     length (filter is_resolve evs) \<le> 1 \<and> length (filter is_acquire evs) \<le> 1 \<and>
     length (filter is_send evs) \<le> 1 \<and>
     (\<forall>ip ssl conn. Acquire ip ssl (Some conn) \<in> set evs \<longrightarrow>
        last evs = Release conn \<and> filter is_release evs = [Release conn] \<and>
        filter is_acquire evs = [Acquire ip ssl (Some conn)]) \<and>
     ((\<forall>ip ssl conn. Acquire ip ssl (Some conn) \<notin> set evs) \<longrightarrow> filter is_release evs = [])"
proof -
  have wc: "\<exists>evs. calls s3 = calls s2 @ evs \<and>
         (evs = [] \<or> evs = [Send conn] \<or> evs = [Send conn, CacheSet u])"
    if "with_connection X u opts conn s2 = (out, s3)" for conn s2 out s3
    using with_connection_calls [of X u opts conn s2] that by simp
  show ?thesis
    unfolding after_cache_def Let_def
    by (auto split: prod.splits sum.splits dest!: wc)
qed

lemma after_cache_new_calls:
  assumes "after_cache X u opts s = (out, after)"
  shows "\<exists>evs. calls after = calls s @ evs \<and>
     length (filter is_resolve evs) \<le> 1 \<and> length (filter is_acquire evs) \<le> 1 \<and>
     length (filter is_send evs) \<le> 1 \<and>
     (\<forall>ip ssl conn. Acquire ip ssl (Some conn) \<in> set evs \<longrightarrow>
        last evs = Release conn \<and> filter is_release evs = [Release conn] \<and>
        filter is_acquire evs = [Acquire ip ssl (Some conn)]) \<and>
     ((\<forall>ip ssl conn. Acquire ip ssl (Some conn) \<notin> set evs) \<longrightarrow> filter is_release evs = [])"
  using after_cache_calls [of X u opts s] assms by simp



lemma fetch_calls:
  assumes "fetch X u opts self = (out, after)"
  shows "length (filter is_resolve (new_calls self after)) \<le> 1 \<and>
     length (filter is_acquire (new_calls self after)) \<le> 1 \<and>
     length (filter is_send (new_calls self after)) \<le> 1 \<and>
     (\<forall>ip ssl conn. Acquire ip ssl (Some conn) \<in> set (new_calls self after) \<longrightarrow>
        last (new_calls self after) = Release conn \<and>
        filter is_release (new_calls self after) = [Release conn] \<and>
        filter is_acquire (new_calls self after) = [Acquire ip ssl (Some conn)]) \<and>
     ((\<forall>ip ssl conn. Acquire ip ssl (Some conn) \<notin> set (new_calls self after)) \<longrightarrow>
        filter is_release (new_calls self after) = [])"
proof -
  have *: "\<exists>evs. calls s' = calls self @ pre @ evs \<and>
     length (filter is_resolve evs) \<le> 1 \<and> length (filter is_acquire evs) \<le> 1 \<and>
     length (filter is_send evs) \<le> 1 \<and>
     (\<forall>ip ssl conn. Acquire ip ssl (Some conn) \<in> set evs \<longrightarrow>
        last evs = Release conn \<and> filter is_release evs = [Release conn] \<and>
        filter is_acquire evs = [Acquire ip ssl (Some conn)]) \<and>
     ((\<forall>ip ssl conn. Acquire ip ssl (Some conn) \<notin> set evs) \<longrightarrow> filter is_release evs = [])"
    if "after_cache X u opts s = (out, s')" "calls s = calls self @ pre" for s pre s'
    using after_cache_new_calls [OF that(1)] that(2) by simp
  have **: ?thesis
    if "after_cache X u opts s = (out, after)" "calls s = calls self @ pre"
      "pre = [Fetch u opts] \<or> pre = [Fetch u opts, CacheGet u]" for s pre
  proof -
    from * [OF that(1,2)] obtain evs where evs: "calls after = calls self @ pre @ evs"
     "length (filter is_resolve evs) \<le> 1" "length (filter is_acquire evs) \<le> 1"
     "length (filter is_send evs) \<le> 1"
     "\<forall>ip ssl conn. Acquire ip ssl (Some conn) \<in> set evs \<longrightarrow>
        last evs = Release conn \<and> filter is_release evs = [Release conn] \<and>
        filter is_acquire evs = [Acquire ip ssl (Some conn)]"
     "(\<forall>ip ssl conn. Acquire ip ssl (Some conn) \<notin> set evs) \<longrightarrow> filter is_release evs = []"
      by blast
    have nc: "new_calls self after = pre @ evs"
      using evs(1) by (simp add: new_calls_def)
    have ne: "evs \<noteq> []" if "Acquire ip ssl (Some conn) \<in> set evs" for ip ssl conn
      using that by auto
    have pre: "filter is_resolve pre = []" "filter is_acquire pre = []" "filter is_send pre = []"
      "filter is_release pre = []" "\<And>ip ssl a. Acquire ip ssl a \<notin> set pre"
      using that(3) by auto
    have mem: "Acquire ip ssl a \<in> set (pre @ evs) \<longleftrightarrow> Acquire ip ssl a \<in> set evs" for ip ssl a
      using pre(5) by simp
    have lst: "last (pre @ evs) = last evs" if "Acquire ip ssl (Some conn) \<in> set evs" for ip ssl conn
      using ne [OF that] by simp
    show ?thesis
      unfolding nc mem filter_append pre append_Nil
    proof (intro conjI allI impI)
      fix ip ssl conn
      assume a: "Acquire ip ssl (Some conn) \<in> set evs"
      with evs(5) lst [OF a] show "last (pre @ evs) = Release conn"
        and "filter is_release evs = [Release conn]"
        and "filter is_acquire evs = [Acquire ip ssl (Some conn)]"
        by simp_all
    qed (use evs(2-4,6) in simp_all)
  qed
  show ?thesis
  proof (cases "use_cache opts")
    case False
    with assms have "after_cache X u opts (self\<lparr>calls := calls self @ [Fetch u opts]\<rparr>) = (out, after)"
      by (simp add: fetch_def Let_def)
    then show ?thesis by (rule ** [where pre = "[Fetch u opts]"]) simp_all
  next
    case True
    obtain looked_up c where lookup: "cache_get X u (cache_manager self) = (looked_up, c)"
      by (cases "cache_get X u (cache_manager self)")
    show ?thesis
    proof (cases "looked_up = Inr None")
      case True
      with assms \<open>use_cache opts\<close> lookup
      have "after_cache X u opts (self\<lparr>calls := calls self @ [Fetch u opts], cache_manager := c,
               calls := calls self @ [Fetch u opts] @ [CacheGet u]\<rparr>) = (out, after)"
        by (simp add: fetch_def Let_def)
      then show ?thesis by (rule ** [where pre = "[Fetch u opts, CacheGet u]"]) simp_all
    next
      case False
      with assms \<open>use_cache opts\<close> lookup
      have "calls after = calls self @ [Fetch u opts, CacheGet u]"
        by (auto simp: fetch_def Let_def split: sum.splits option.splits)
      then have "new_calls self after = [Fetch u opts, CacheGet u]"
        by (simp add: new_calls_def)
      then show ?thesis by simp
    qed
  qed
qed

lemma after_cache_pool:
  assumes "after_cache X u opts s = (out, s')"
    and "Acquire ip ssl (Some conn) \<in> set (new_calls s s')"
  shows "connection_pool s' = pool_release X conn (snd (pool_acquire X ip ssl (connection_pool s)))"
proof -
  have wc: "(\<exists>evs. calls s3 = calls s2 @ evs \<and>
         (evs = [] \<or> evs = [Send c] \<or> evs = [Send c, CacheSet u])) \<and>
         connection_pool s3 = connection_pool s2"
    if "with_connection X u opts c s2 = (r, s3)" for c s2 r s3
    using with_connection_calls [of X u opts c s2] with_connection_pool [of X u opts c s2] that
    by simp
  show ?thesis
    using assms unfolding after_cache_def Let_def new_calls_def
    by (auto split: prod.splits sum.splits dest!: wc)
qed

lemma fetch_pool:
  assumes run: "fetch X u opts self = (out, after)"
    and acq: "Acquire ip ssl (Some conn) \<in> set (new_calls self after)"
  shows "connection_pool after = pool_release X conn (snd (pool_acquire X ip ssl (connection_pool self)))"
proof -
  have *: ?thesis
    if ac: "after_cache X u opts s = (out, after)" and cs: "calls s = calls self @ pre"
      and pool: "connection_pool s = connection_pool self"
      and pre: "pre = [Fetch u opts] \<or> pre = [Fetch u opts, CacheGet u]" for s pre
  proof -
    from after_cache_new_calls [OF ac] obtain evs where evs: "calls after = calls s @ evs"
      by blast
    then have "new_calls self after = pre @ new_calls s after"
      using cs by (simp add: new_calls_def)
    with acq pre have "Acquire ip ssl (Some conn) \<in> set (new_calls s after)"
      by auto
    from after_cache_pool [OF ac this] pool show ?thesis by simp
  qed
  show ?thesis
  proof (cases "use_cache opts")
    case False
    with run have "after_cache X u opts (self\<lparr>calls := calls self @ [Fetch u opts]\<rparr>) = (out, after)"
      by (simp add: fetch_def Let_def)
    then show ?thesis by (rule * [where pre = "[Fetch u opts]"]) simp_all
  next
    case True
    obtain looked_up c where lookup: "cache_get X u (cache_manager self) = (looked_up, c)"
      by (cases "cache_get X u (cache_manager self)")
    show ?thesis
    proof (cases "looked_up = Inr None")
      case True
      with run \<open>use_cache opts\<close> lookup
      have "after_cache X u opts (self\<lparr>calls := calls self @ [Fetch u opts], cache_manager := c,
               calls := calls self @ [Fetch u opts] @ [CacheGet u]\<rparr>) = (out, after)"
        by (simp add: fetch_def Let_def)
      then show ?thesis by (rule * [where pre = "[Fetch u opts, CacheGet u]"]) simp_all
    next
      case False
      with run \<open>use_cache opts\<close> lookup
      have "calls after = calls self @ [Fetch u opts, CacheGet u]"
        by (auto simp: fetch_def Let_def split: sum.splits option.splits)
      then have "new_calls self after = [Fetch u opts, CacheGet u]"
        by (simp add: new_calls_def)
      with acq show ?thesis by simp
    qed
  qed
qed

lemma with_connection_sent:
  assumes "prepareRequest X u opts = Inr request"
    and "sendRequest X conn request (http_client s) = (Inr response, h)"
  shows "fst (with_connection X u opts conn s) =
           (if cache_response opts \<and> is_cacheable response
            then (case fst (cache_set X u response (cache_manager s)) of
                    Inl e \<Rightarrow> Inl e | Inr _ \<Rightarrow> Inr response)
            else Inr response)"
    and "cache_manager (snd (with_connection X u opts conn s)) =
           (if cache_response opts \<and> is_cacheable response
            then snd (cache_set X u response (cache_manager s)) else cache_manager s)"
    and "calls (snd (with_connection X u opts conn s)) =
           calls s @ Send conn #
             (if cache_response opts \<and> is_cacheable response then [CacheSet u] else [])"
proof -
  obtain stored c where cs: "cache_set X u response (cache_manager s) = (stored, c)"
    by (cases "cache_set X u response (cache_manager s)")
  show "fst (with_connection X u opts conn s) =
           (if cache_response opts \<and> is_cacheable response
            then (case fst (cache_set X u response (cache_manager s)) of
                    Inl e \<Rightarrow> Inl e | Inr _ \<Rightarrow> Inr response)
            else Inr response)"
    using assms cs by (cases stored) (auto simp: with_connection_def Let_def)
  show "cache_manager (snd (with_connection X u opts conn s)) =
           (if cache_response opts \<and> is_cacheable response
            then snd (cache_set X u response (cache_manager s)) else cache_manager s)"
    using assms cs by (cases stored) (auto simp: with_connection_def Let_def)
  show "calls (snd (with_connection X u opts conn s)) =
           calls s @ Send conn #
             (if cache_response opts \<and> is_cacheable response then [CacheSet u] else [])"
    using assms cs by (cases stored) (auto simp: with_connection_def Let_def)
qed

lemma with_connection_Inr_sent:
  assumes "with_connection X u opts conn s = (Inr r, s')"
  shows "\<exists>request h. prepareRequest X u opts = Inr request \<and>
           sendRequest X conn request (http_client s) = (Inr r, h)"
  using assms
  by (auto simp: with_connection_def Let_def split: prod.splits sum.splits if_splits)

lemma after_cache_sent:
  assumes ac: "after_cache X u opts s = (out, s')"
    and sent: "Send conn \<in> set (new_calls s s')"
  shows "\<exists>s2 pre. http_client s2 = http_client s \<and> cache_manager s2 = cache_manager s \<and>
           calls s2 = calls s @ pre \<and> (\<forall>v. CacheSet v \<notin> set pre) \<and>
           fst (with_connection X u opts conn s2) = out \<and>
           cache_manager s' = cache_manager (snd (with_connection X u opts conn s2)) \<and>
           calls s' = calls (snd (with_connection X u opts conn s2)) @ [Release conn]"
proof -
  have wc: "\<exists>evs. calls s3 = calls s2 @ evs \<and>
         (evs = [] \<or> evs = [Send c] \<or> evs = [Send c, CacheSet u])"
    if "with_connection X u opts c s2 = (r, s3)" for c s2 r s3
    using with_connection_calls [of X u opts c s2] that by simp
  show ?thesis
  proof (cases "extractHost X u")
    case (Inl e)
    with ac sent show ?thesis
      by (simp add: after_cache_def new_calls_def)
  next
    case host: (Inr host)
    obtain resolved d where res: "dns_resolve X host (dns_resolver s) = (resolved, d)"
      by (cases "dns_resolve X host (dns_resolver s)")
    show ?thesis
    proof (cases resolved)
      case (Inl e)
      with ac sent host res show ?thesis
        by (auto simp: after_cache_def new_calls_def Let_def)
    next
      case ip: (Inr ip)
      obtain acquired k where acq: "pool_acquire X ip (use_ssl opts) (connection_pool s) = (acquired, k)"
        by (cases "pool_acquire X ip (use_ssl opts) (connection_pool s)")
      show ?thesis
      proof (cases acquired)
        case (Inl e)
        with ac sent host res ip acq show ?thesis
          by (auto simp: after_cache_def new_calls_def Let_def)
      next
        case c: (Inr c)
        let ?s2 = "s\<lparr>dns_resolver := d, calls := calls s @ [Resolve host], connection_pool := k,
               calls := calls s @ [Resolve host] @ [Acquire ip (use_ssl opts) (Some c)]\<rparr>"
        obtain r s3 where w: "with_connection X u opts c ?s2 = (r, s3)"
          by (cases "with_connection X u opts c ?s2")
        from ac host res ip acq c w
        have out: "out = r" and s': "s' = s3\<lparr>connection_pool := pool_release X c (connection_pool s3),
                calls := calls s3 @ [Release c]\<rparr>"
          by (simp_all add: after_cache_def Let_def)
        from wc [OF w] obtain evs where evs: "calls s3 = calls ?s2 @ evs"
          "evs = [] \<or> evs = [Send c] \<or> evs = [Send c, CacheSet u]"
          by blast
        from sent s' evs have "c = conn"
          by (auto simp: new_calls_def)
        with out s' w show ?thesis
          by (intro exI [of _ ?s2] exI [of _ "[Resolve host, Acquire ip (use_ssl opts) (Some c)]"]) simp
      qed
    qed
  qed
qed

lemma fetch_sent:
  assumes run: "fetch X u opts self = (out, after)"
    and sent: "Send conn \<in> set (new_calls self after)"
  shows "\<exists>s2 pre. http_client s2 = http_client self \<and>
           cache_manager s2 = (if use_cache opts then snd (cache_get X u (cache_manager self))
                               else cache_manager self) \<and>
           calls s2 = calls self @ pre \<and> (\<forall>v. CacheSet v \<notin> set pre) \<and>
           fst (with_connection X u opts conn s2) = out \<and>
           cache_manager after = cache_manager (snd (with_connection X u opts conn s2)) \<and>
           calls after = calls (snd (with_connection X u opts conn s2)) @ [Release conn]"
proof -
  have *: ?thesis
    if ac: "after_cache X u opts s = (out, after)" and cs: "calls s = calls self @ pre0"
      and hc: "http_client s = http_client self"
      and cache: "cache_manager s = (if use_cache opts then snd (cache_get X u (cache_manager self))
                    else cache_manager self)"
      and pre: "pre0 = [Fetch u opts] \<or> pre0 = [Fetch u opts, CacheGet u]" for s pre0
  proof -
    from after_cache_new_calls [OF ac] obtain evs where evs: "calls after = calls s @ evs"
      by blast
    then have "new_calls self after = pre0 @ new_calls s after"
      using cs by (simp add: new_calls_def)
    with sent pre have "Send conn \<in> set (new_calls s after)"
      by auto
    from after_cache_sent [OF ac this] obtain s2 pre1 where
      s2: "http_client s2 = http_client s" "cache_manager s2 = cache_manager s"
        "calls s2 = calls s @ pre1" "\<forall>v. CacheSet v \<notin> set pre1"
        "fst (with_connection X u opts conn s2) = out"
        "cache_manager after = cache_manager (snd (with_connection X u opts conn s2))"
        "calls after = calls (snd (with_connection X u opts conn s2)) @ [Release conn]"
      by blast
    have "\<forall>v. CacheSet v \<notin> set (pre0 @ pre1)"
      using pre s2(4) by auto
    with s2 cs hc cache show ?thesis
      by (intro exI [of _ s2] exI [of _ "pre0 @ pre1"]) simp
  qed
  show ?thesis
  proof (cases "use_cache opts")
    case False
    with run have ac: "after_cache X u opts (self\<lparr>calls := calls self @ [Fetch u opts]\<rparr>) = (out, after)"
      by (simp add: fetch_def Let_def)
    show ?thesis by (rule * [OF ac, where ?pre0.0 = "[Fetch u opts]"]) (simp_all add: False)
  next
    case True
    obtain looked_up c where lookup: "cache_get X u (cache_manager self) = (looked_up, c)"
      by (cases "cache_get X u (cache_manager self)")
    show ?thesis
    proof (cases "looked_up = Inr None")
      case miss: True
      with run True lookup
      have ac: "after_cache X u opts (self\<lparr>calls := calls self @ [Fetch u opts], cache_manager := c,
               calls := calls self @ [Fetch u opts] @ [CacheGet u]\<rparr>) = (out, after)"
        by (simp add: fetch_def Let_def)
      show ?thesis
        by (rule * [OF ac, where ?pre0.0 = "[Fetch u opts, CacheGet u]"]) (simp_all add: True lookup)
    next
      case False
      with run True lookup
      have "calls after = calls self @ [Fetch u opts, CacheGet u]"
        by (auto simp: fetch_def Let_def split: sum.splits option.splits)
      then have "new_calls self after = [Fetch u opts, CacheGet u]"
        by (simp add: new_calls_def)
      with sent show ?thesis by simp
    qed
  qed
qed

subsection \<open>Runs in the simulated environment\<close>

lemmas sim_simps = sim_def sim_cache_get_def sim_cache_set_def sim_dns_resolve_def
  sim_extractHost_def sim_prepareRequest_def sim_sendRequest_def acquire_def release_def

lemmas fetch_simps = fetch_def after_cache_def with_connection_def Let_def

lemma run_first: "fetch sim ''https://example.com/a'' default_options manager_a =
    (Inr \<lparr>is_cacheable = True\<rparr>, manager_b)"
  by (simp add: fetch_simps sim_simps default_options_def manager_a_def manager_b_def)


lemma run_send_fails:
  "fetch (sim\<lparr>sendRequest := failing_sendRequest\<rparr>) ''https://example.com/a'' default_options manager_a =
    (Inl (Error ''ConnectionReset''),
     manager_a\<lparr>calls := [Fetch ''https://example.com/a'' default_options, CacheGet ''https://example.com/a'',
                Resolve ''https://example.com/a'',
                Acquire ''https://example.com/a'' True (Some undefined_ptr),
                Send undefined_ptr, Release undefined_ptr]\<rparr>)"
  by (simp add: fetch_simps sim_simps failing_sendRequest_def default_options_def manager_a_def)

lemma run_store_fails:
  "fetch (sim\<lparr>cache_set := failing_cache_set\<rparr>) ''https://example.com/a'' default_options manager_a =
    (Inl (Error ''OutOfMemory''),
     manager_a\<lparr>calls := [Fetch ''https://example.com/a'' default_options, CacheGet ''https://example.com/a'',
                Resolve ''https://example.com/a'',
                Acquire ''https://example.com/a'' True (Some undefined_ptr),
                Send undefined_ptr, CacheSet ''https://example.com/a'', Release undefined_ptr]\<rparr>)"
  by (simp add: fetch_simps sim_simps failing_cache_set_def default_options_def manager_a_def)

lemma run_private:
  "fetch sim ''/private'' default_options manager_a =
    (Inr \<lparr>is_cacheable = False\<rparr>,
     manager_a\<lparr>calls := [Fetch ''/private'' default_options, CacheGet ''/private'',
                Resolve ''/private'', Acquire ''/private'' True (Some undefined_ptr),
                Send undefined_ptr, Release undefined_ptr]\<rparr>)"
  by (simp add: fetch_simps sim_simps default_options_def manager_a_def)

subsection \<open>Cache first, then one pass over the network\<close>



subsection \<open>What is stored in the cache\<close>

text \<open>
  C6. Take a run of \<open>fetch\<close> that sends a request on a connection, and let \<open>response\<close>
  be what \<open>sendRequest\<close> answers to it. The response is handed to the cache's \<open>set\<close>
  exactly when \<open>cache_response\<close> is set in the options and the response is marked
  \<open>is_cacheable\<close>; a response that is not marked cacheable is never handed to \<open>set\<close>,
  whatever the options. The cache manager ends in the state that the lookup (if any) left,
  followed by that \<open>set\<close> of this response (if any). \<open>fetch\<close> returns this response,
  unless the \<open>set\<close> fails, whose error it then returns. Conversely the response that
  such a run returns is the one \<open>sendRequest\<close> answered.
\<close>

theorem fetch_stores_iff_cacheable:
  fixes X :: "('h, 'd, 'c, 'k, 'p, 'q, 'r) Collaborators"
    and self :: "('h, 'd, 'c, 'k, 'p) NetworkManager"
  assumes run: "fetch X u opts self = (out, after)"
    and sent: "Send conn \<in> set (new_calls self after)"
  shows "(prepareRequest X u opts = Inr request \<and>
          sendRequest X conn request (http_client self) = (Inr response, h) \<longrightarrow>
            (CacheSet u \<in> set (new_calls self after) \<longleftrightarrow>
               cache_response opts \<and> is_cacheable response) \<and>
            (\<not> is_cacheable response \<longrightarrow> (\<forall>v. CacheSet v \<notin> set (new_calls self after))) \<and>
            cache_manager after =
              (if cache_response opts \<and> is_cacheable response
               then snd (cache_set X u response
                      (if use_cache opts then snd (cache_get X u (cache_manager self))
                       else cache_manager self))
               else (if use_cache opts then snd (cache_get X u (cache_manager self))
                     else cache_manager self)) \<and>
            out =
              (if cache_response opts \<and> is_cacheable response
               then (case fst (cache_set X u response
                       (if use_cache opts then snd (cache_get X u (cache_manager self))
                        else cache_manager self)) of
                       Inl e \<Rightarrow> Inl e | Inr _ \<Rightarrow> Inr response)
               else Inr response)) \<and>
         (\<forall>r. out = Inr r \<longrightarrow>
            (\<exists>request h. prepareRequest X u opts = Inr request \<and>
               sendRequest X conn request (http_client self) = (Inr r, h)))"
proof -
  from fetch_sent [OF run sent] obtain s2 pre where
    s2: "http_client s2 = http_client self"
      "cache_manager s2 = (if use_cache opts then snd (cache_get X u (cache_manager self))
                               else cache_manager self)"
      "calls s2 = calls self @ pre" "\<forall>v. CacheSet v \<notin> set pre"
      "fst (with_connection X u opts conn s2) = out"
      "cache_manager after = cache_manager (snd (with_connection X u opts conn s2))"
      "calls after = calls (snd (with_connection X u opts conn s2)) @ [Release conn]"
    by blast
  have bwd: "\<exists>request h. prepareRequest X u opts = Inr request \<and>
               sendRequest X conn request (http_client self) = (Inr r, h)" if "out = Inr r" for r
  proof -
    from that s2(5)
    have "with_connection X u opts conn s2 = (Inr r, snd (with_connection X u opts conn s2))"
      by (metis prod.collapse)
    from with_connection_Inr_sent [OF this] s2(1) show ?thesis by simp
  qed
  have fwd: "(CacheSet u \<in> set (new_calls self after) \<longleftrightarrow>
               cache_response opts \<and> is_cacheable response) \<and>
            (\<not> is_cacheable response \<longrightarrow> (\<forall>v. CacheSet v \<notin> set (new_calls self after))) \<and>
            cache_manager after =
              (if cache_response opts \<and> is_cacheable response
               then snd (cache_set X u response
                      (if use_cache opts then snd (cache_get X u (cache_manager self))
                       else cache_manager self))
               else (if use_cache opts then snd (cache_get X u (cache_manager self))
                     else cache_manager self)) \<and>
            out =
              (if cache_response opts \<and> is_cacheable response
               then (case fst (cache_set X u response
                       (if use_cache opts then snd (cache_get X u (cache_manager self))
                        else cache_manager self)) of
                       Inl e \<Rightarrow> Inl e | Inr _ \<Rightarrow> Inr response)
               else Inr response)"
    if a: "prepareRequest X u opts = Inr request \<and>
          sendRequest X conn request (http_client self) = (Inr response, h)"
  proof -
    from a have prep: "prepareRequest X u opts = Inr request"
      and send: "sendRequest X conn request (http_client s2) = (Inr response, h)"
      using s2(1) by simp_all
    note wc = with_connection_sent [OF prep send]
    have nc: "new_calls self after = pre @ Send conn #
             (if cache_response opts \<and> is_cacheable response then [CacheSet u] else []) @ [Release conn]"
      using s2(3,7) wc(3) by (simp add: new_calls_def)
    have 1: "CacheSet u \<in> set (new_calls self after) \<longleftrightarrow>
               cache_response opts \<and> is_cacheable response"
      unfolding nc using s2(4) by auto
    have 2: "\<not> is_cacheable response \<longrightarrow> (\<forall>v. CacheSet v \<notin> set (new_calls self after))"
      unfolding nc using s2(4) by auto
    have 3: "cache_manager after =
              (if cache_response opts \<and> is_cacheable response
               then snd (cache_set X u response
                      (if use_cache opts then snd (cache_get X u (cache_manager self))
                       else cache_manager self))
               else (if use_cache opts then snd (cache_get X u (cache_manager self))
                     else cache_manager self))"
      unfolding s2(6) wc(2) s2(2) ..
    have 4: "out =
              (if cache_response opts \<and> is_cacheable response
               then (case fst (cache_set X u response
                       (if use_cache opts then snd (cache_get X u (cache_manager self))
                        else cache_manager self)) of
                       Inl e \<Rightarrow> Inl e | Inr _ \<Rightarrow> Inr response)
               else Inr response)"
      unfolding s2(5) [symmetric] wc(1) s2(2) ..
    from 1 2 3 4 show ?thesis by (intro conjI)
  qed
  from bwd fwd show ?thesis by blast
qed

theorem fetch_stores_iff_cacheable_witness:
  "fst (fetch sim ''https://example.com/a'' default_options manager_a) =
     Inr \<lparr>is_cacheable = True\<rparr> \<and>
   CacheSet ''https://example.com/a'' \<in> set (new_calls manager_a
     (snd (fetch sim ''https://example.com/a'' default_options manager_a))) \<and>
   cache_manager (snd (fetch sim ''https://example.com/a'' default_options manager_a)) =
     ((4096, False), [(''https://example.com/a'', \<lparr>is_cacheable = True\<rparr>)]) \<and>
   fst (fetch sim ''/private'' default_options manager_a) = Inr \<lparr>is_cacheable = False\<rparr> \<and>
   CacheSet ''/private'' \<notin> set (new_calls manager_a
     (snd (fetch sim ''/private'' default_options manager_a))) \<and>
   cache_manager (snd (fetch sim ''/private'' default_options manager_a)) = ((4096, False), [])"
proof -
  let ?a = "snd (fetch sim ''https://example.com/a'' default_options manager_a)"
  let ?b = "snd (fetch sim ''/private'' default_options manager_a)"
  have run1: "fetch sim ''https://example.com/a'' default_options manager_a =
      (fst (fetch sim ''https://example.com/a'' default_options manager_a), ?a)"
    by (rule prod.collapse [symmetric])
  have run2: "fetch sim ''/private'' default_options manager_a =
      (fst (fetch sim ''/private'' default_options manager_a), ?b)"
    by (rule prod.collapse [symmetric])
  have sent1: "Send undefined_ptr \<in> set (new_calls manager_a ?a)"
    unfolding run_first snd_conv by (simp add: new_calls_def manager_a_def manager_b_def)
  have sent2: "Send undefined_ptr \<in> set (new_calls manager_a ?b)"
    unfolding run_private snd_conv by (simp add: new_calls_def manager_a_def)
  have prep: "prepareRequest sim u default_options = Inr u" for u
    by (simp add: sim_simps)
  have send1: "sendRequest sim undefined_ptr ''https://example.com/a'' (http_client manager_a) =
      (Inr \<lparr>is_cacheable = True\<rparr>, http_client manager_a)"
    by (simp add: sim_simps)
  have send2: "sendRequest sim undefined_ptr ''/private'' (http_client manager_a) =
      (Inr \<lparr>is_cacheable = False\<rparr>, http_client manager_a)"
    by (simp add: sim_simps)
  have opts: "use_cache default_options" "cache_response default_options"
    by (simp_all add: default_options_def)
  have c0: "snd (cache_get sim u (cache_manager manager_a)) = ((4096, False), [])" for u
    by (simp add: sim_simps manager_a_def)
  have set1: "cache_set sim ''https://example.com/a'' \<lparr>is_cacheable = True\<rparr> ((4096, False), []) =
      (Inr (), ((4096, False), [(''https://example.com/a'', \<lparr>is_cacheable = True\<rparr>)]))"
    by (simp add: sim_simps)
  note first = fetch_stores_iff_cacheable [OF run1 sent1, THEN conjunct1, THEN mp,
      OF conjI [OF prep send1]]
  note second = fetch_stores_iff_cacheable [OF run2 sent2, THEN conjunct1, THEN mp,
      OF conjI [OF prep send2]]
  have a1: "CacheSet ''https://example.com/a'' \<in> set (new_calls manager_a ?a)"
    using first [THEN conjunct1] opts by simp
  have a2: "cache_manager ?a =
     ((4096, False), [(''https://example.com/a'', \<lparr>is_cacheable = True\<rparr>)])"
    using first [THEN conjunct2, THEN conjunct2, THEN conjunct1] opts by (simp add: c0 set1)
  have a3: "fst (fetch sim ''https://example.com/a'' default_options manager_a) =
     Inr \<lparr>is_cacheable = True\<rparr>"
    using first [THEN conjunct2, THEN conjunct2, THEN conjunct2] opts by (simp add: c0 set1)
  have b1: "CacheSet ''/private'' \<notin> set (new_calls manager_a ?b)"
    using second [THEN conjunct2, THEN conjunct1] by simp
  have b2: "cache_manager ?b = ((4096, False), [])"
    using second [THEN conjunct2, THEN conjunct2, THEN conjunct1] opts by (simp add: c0)
  have b3: "fst (fetch sim ''/private'' default_options manager_a) = Inr \<lparr>is_cacheable = False\<rparr>"
    using second [THEN conjunct2, THEN conjunct2, THEN conjunct2] by simp
  from a1 a2 a3 b1 b2 b3 show ?thesis by (intro conjI)
qed

subsection \<open>The acquired connection is released\<close>

text \<open>
  C7. Once \<open>fetch\<close> has acquired a connection, it releases that connection, whatever the
  rest of the attempt returns (a response, or the error of \<open>prepareRequest\<close>,
  \<open>sendRequest\<close> or the cache's \<open>set\<close>): the release of this connection is the last
  call of the run and its only release, the acquisition is its only acquisition, and the
  pool is left in the state \<open>release\<close> gives after \<open>acquire\<close>.
\<close>

theorem fetch_releases_connection:
  fixes X :: "('h, 'd, 'c, 'k, 'p, 'q, 'r) Collaborators"
    and self :: "('h, 'd, 'c, 'k, 'p) NetworkManager"
  assumes run: "fetch X u opts self = (out, after)"
    and acquired: "Acquire ip ssl (Some conn) \<in> set (new_calls self after)"
  shows "last (new_calls self after) = Release conn \<and>
         filter is_release (new_calls self after) = [Release conn] \<and>
         filter is_acquire (new_calls self after) = [Acquire ip ssl (Some conn)] \<and>
         connection_pool after =
           pool_release X conn (snd (pool_acquire X ip ssl (connection_pool self)))"
  using fetch_calls [OF run] fetch_pool [OF run acquired] acquired by blast

theorem fetch_releases_connection_witness:
  "fst (fetch (sim\<lparr>sendRequest := failing_sendRequest\<rparr>) ''https://example.com/a''
          default_options manager_a) = Inl (Error ''ConnectionReset'') \<and>
   last (calls (snd (fetch (sim\<lparr>sendRequest := failing_sendRequest\<rparr>) ''https://example.com/a''
          default_options manager_a))) = Release undefined_ptr \<and>
   fst (fetch (sim\<lparr>cache_set := failing_cache_set\<rparr>) ''https://example.com/a''
          default_options manager_a) = Inl (Error ''OutOfMemory'') \<and>
   last (calls (snd (fetch (sim\<lparr>cache_set := failing_cache_set\<rparr>) ''https://example.com/a''
          default_options manager_a))) = Release undefined_ptr"
proof -
  have a1: "Acquire ''https://example.com/a'' True (Some undefined_ptr) \<in> set (new_calls manager_a
     (manager_a\<lparr>calls := [Fetch ''https://example.com/a'' default_options,
                CacheGet ''https://example.com/a'', Resolve ''https://example.com/a'',
                Acquire ''https://example.com/a'' True (Some undefined_ptr),
                Send undefined_ptr, Release undefined_ptr]\<rparr>))"
    by (simp add: new_calls_def manager_a_def)
  have a2: "Acquire ''https://example.com/a'' True (Some undefined_ptr) \<in> set (new_calls manager_a
     (manager_a\<lparr>calls := [Fetch ''https://example.com/a'' default_options,
                CacheGet ''https://example.com/a'', Resolve ''https://example.com/a'',
                Acquire ''https://example.com/a'' True (Some undefined_ptr),
                Send undefined_ptr, CacheSet ''https://example.com/a'', Release undefined_ptr]\<rparr>))"
    by (simp add: new_calls_def manager_a_def)
  have nc: "new_calls manager_a (manager_a\<lparr>calls := cs\<rparr>) = cs" for cs
    by (simp add: new_calls_def manager_a_def)
  from fetch_releases_connection [OF run_send_fails a1] fetch_releases_connection [OF run_store_fails a2]
  show ?thesis
    unfolding run_send_fails run_store_fails nc by simp
qed

subsection \<open>Draining the queue\<close>

lemma fetched_append: "fetched (xs @ ys) = fetched xs @ fetched ys"
  by (induction xs rule: fetched.induct) simp_all

lemma after_cache_fetched:
  assumes "after_cache X u opts s = (out, s')"
  shows "\<exists>evs. calls s' = calls s @ evs \<and> fetched evs = []"
proof -
  have wc: "\<exists>evs. calls s3 = calls s2 @ evs \<and>
         (evs = [] \<or> evs = [Send c] \<or> evs = [Send c, CacheSet u])"
    if "with_connection X u opts c s2 = (r, s3)" for c s2 r s3
    using with_connection_calls [of X u opts c s2] that by simp
  show ?thesis
    using assms unfolding after_cache_def Let_def
    by (auto split: prod.splits sum.splits dest!: wc)
qed

lemma fetch_fetched:
  assumes "fetch X u opts self = (out, after)"
  shows "\<exists>evs. calls after = calls self @ evs \<and> fetched evs = [\<lparr>url = u, options = opts\<rparr>]"
proof (cases "use_cache opts")
  case False
  with assms have "after_cache X u opts (self\<lparr>calls := calls self @ [Fetch u opts]\<rparr>) = (out, after)"
    by (simp add: fetch_def Let_def)
  from after_cache_fetched [OF this] show ?thesis
    by (auto simp: fetched_append)
next
  case True
  obtain looked_up c where lookup: "cache_get X u (cache_manager self) = (looked_up, c)"
    by (cases "cache_get X u (cache_manager self)")
  show ?thesis
  proof (cases "looked_up = Inr None")
    case miss: True
    with assms True lookup
    have "after_cache X u opts (self\<lparr>calls := calls self @ [Fetch u opts], cache_manager := c,
               calls := calls self @ [Fetch u opts] @ [CacheGet u]\<rparr>) = (out, after)"
      by (simp add: fetch_def Let_def)
    from after_cache_fetched [OF this] show ?thesis
      by (auto simp: fetched_append)
  next
    case False
    with assms True lookup
    have "calls after = calls self @ [Fetch u opts, CacheGet u]"
      by (auto simp: fetch_def Let_def split: sum.splits option.splits)
    then show ?thesis by simp
  qed
qed

lemma processQueue_drain:
  "processQueue X self = (out, after) \<Longrightarrow>
   \<exists>evs. calls after = calls self @ evs \<and>
     mset (fetched evs) + mset (request_queue after) = mset (request_queue self) \<and>
     (out = Inr () \<longrightarrow> request_queue after = []) \<and>
     (\<forall>e. out = Inl e \<longrightarrow>
        (\<exists>p s. p \<in> set (request_queue self) \<and> fetch X (url p) (options p) s = (Inl e, after)))"
proof (induction X self arbitrary: out after rule: processQueue.induct)
  case (1 X self)
  show ?case
  proof (cases "request_queue self = []")
    case True
    with "1.prems" have "out = Inr ()" "after = self"
      by (simp_all add: processQueue.simps [of X self] popOrNull_def)
    with True show ?thesis by simp
  next
    case False
    define p where "p = last (request_queue self)"
    define rest where "rest = butlast (request_queue self)"
    have pop: "popOrNull (request_queue self) = Some (p, rest)"
      using False by (simp add: popOrNull_def p_def rest_def)
    have q: "request_queue self = rest @ [p]"
      using False by (simp add: p_def rest_def)
    obtain r s1 where f: "fetch X (url p) (options p) (self\<lparr>request_queue := rest\<rparr>) = (r, s1)"
      by (cases "fetch X (url p) (options p) (self\<lparr>request_queue := rest\<rparr>)")
    from fetch_fetched [OF f] obtain evs1 where
      evs1: "calls s1 = calls self @ evs1" "fetched evs1 = [\<lparr>url = url p, options = options p\<rparr>]"
      by auto
    have s1q: "request_queue s1 = rest"
      using fetch_queue [of X "url p" "options p" "self\<lparr>request_queue := rest\<rparr>"] f by simp
    have pp: "\<lparr>url = url p, options = options p\<rparr> = p" by simp
    show ?thesis
    proof (cases r)
      case (Inl e)
      with "1.prems" pop f have "out = Inl e" "after = s1"
        by (simp_all add: processQueue.simps [of X self])
      with evs1 s1q q f Inl pp show ?thesis
        by (intro exI [of _ evs1]) auto
    next
      case (Inr v)
      with "1.prems" pop f have run': "processQueue X s1 = (out, after)"
        by (simp add: processQueue.simps [of X self])
      from "1.IH" [OF pop refl f [symmetric] Inr run'] obtain evs where
        evs: "calls after = calls s1 @ evs"
          "mset (fetched evs) + mset (request_queue after) = mset (request_queue s1)"
          "out = Inr () \<longrightarrow> request_queue after = []"
          "\<forall>e. out = Inl e \<longrightarrow>
             (\<exists>p s. p \<in> set (request_queue s1) \<and> fetch X (url p) (options p) s = (Inl e, after))"
        by blast
      have "mset (fetched (evs1 @ evs)) + mset (request_queue after) = mset (request_queue self)"
        using evs(2) evs1(2) s1q q pp by (simp add: fetched_append)
      moreover have "calls after = calls self @ evs1 @ evs"
        using evs(1) evs1(1) by simp
      moreover have "\<forall>e. out = Inl e \<longrightarrow>
             (\<exists>p s. p \<in> set (request_queue self) \<and> fetch X (url p) (options p) s = (Inl e, after))"
        using evs(4) s1q q by fastforce
      ultimately show ?thesis using evs(3) by blast
    qed
  qed
qed

lemma processQueue_failed_step:
  assumes run: "processQueue X self = (out, after)"
    and pop: "popOrNull (request_queue self) = Some (p, rest)"
    and f: "fetch X (url p) (options p) (self\<lparr>request_queue := rest\<rparr>) = (Inl e, s1)"
  shows "out = Inl e \<and> after = s1 \<and> request_queue after = rest \<and>
         fetched (new_calls self after) = [p]"
proof -
  from run pop f have oa: "out = Inl e" "after = s1"
    by (simp_all add: processQueue.simps [of X self])
  from fetch_fetched [OF f] obtain evs where
    evs: "calls s1 = calls self @ evs" "fetched evs = [\<lparr>url = url p, options = options p\<rparr>]"
    by auto
  have "request_queue s1 = rest"
    using fetch_queue [of X "url p" "options p" "self\<lparr>request_queue := rest\<rparr>"] f by simp
  moreover have "fetched (new_calls self s1) = [p]"
    using evs by (simp add: new_calls_def)
  ultimately show ?thesis using oa by simp
qed

lemma processQueue_succeeded_step:
  assumes run: "processQueue X self = (out, after)"
    and pop: "popOrNull (request_queue self) = Some (p, rest)"
    and f: "fetch X (url p) (options p) (self\<lparr>request_queue := rest\<rparr>) = (Inr r, s1)"
  shows "processQueue X s1 = (out, after) \<and> request_queue s1 = rest"
proof -
  from run pop f have "processQueue X s1 = (out, after)"
    by (simp add: processQueue.simps [of X self])
  moreover have "request_queue s1 = rest"
    using fetch_queue [of X "url p" "options p" "self\<lparr>request_queue := rest\<rparr>"] f by simp
  ultimately show ?thesis by simp
qed

lemma processQueue_failing_entry:
  "processQueue X self = (out, after) \<Longrightarrow>
   \<exists>p \<in> set (request_queue self). \<forall>s. \<exists>e s'. fetch X (url p) (options p) s = (Inl e, s') \<Longrightarrow>
   \<exists>e. out = Inl e"
proof (induction X self arbitrary: out after rule: processQueue.induct)
  case (1 X self)
  from "1.prems"(2) have ne: "request_queue self \<noteq> []" by auto
  define p where "p = last (request_queue self)"
  define rest where "rest = butlast (request_queue self)"
  have pop: "popOrNull (request_queue self) = Some (p, rest)"
    using ne by (simp add: popOrNull_def p_def rest_def)
  have q: "request_queue self = rest @ [p]"
    using ne by (simp add: p_def rest_def)
  obtain r s1 where f: "fetch X (url p) (options p) (self\<lparr>request_queue := rest\<rparr>) = (r, s1)"
    by (cases "fetch X (url p) (options p) (self\<lparr>request_queue := rest\<rparr>)")
  show ?case
  proof (cases r)
    case (Inl e)
    with processQueue_failed_step [OF "1.prems"(1) pop] f show ?thesis by simp
  next
    case (Inr v)
    with f have f': "fetch X (url p) (options p) (self\<lparr>request_queue := rest\<rparr>) = (Inr v, s1)"
      by (simp del: processQueue.simps)
    note step = processQueue_succeeded_step [OF "1.prems"(1) pop f']
    from step have run': "processQueue X s1 = (out, after)" by (rule conjunct1)
    from step have s1q: "request_queue s1 = rest" by (rule conjunct2)
    from "1.prems"(2) obtain p' where p': "p' \<in> set (request_queue self)"
      "\<forall>s. \<exists>e s'. fetch X (url p') (options p') s = (Inl e, s')"
      by blast
    have "p' \<noteq> p"
    proof
      assume "p' = p"
      with p'(2) f Inr show False by (metis Inl_Inr_False prod.inject)
    qed
    with p'(1) q s1q have "p' \<in> set (request_queue s1)" by simp
    with p'(2) have "\<exists>p \<in> set (request_queue s1). \<forall>s. \<exists>e s'. fetch X (url p) (options p) s = (Inl e, s')"
      by blast
    from "1.IH" [OF pop refl f [symmetric] Inr run' this] show ?thesis .
  qed
qed

lemma run_queue_ab:
  "processQueue sim queued_ab =
    (Inr (), manager_a\<lparr>calls :=
       [Fetch ''/b'' no_cache, Resolve ''/b'', Acquire ''/b'' True (Some undefined_ptr),
        Send undefined_ptr, Release undefined_ptr,
        Fetch ''/a'' no_cache, Resolve ''/a'', Acquire ''/a'' True (Some undefined_ptr),
        Send undefined_ptr, Release undefined_ptr]\<rparr>)"
  apply (subst processQueue.simps)
  apply (subst processQueue.simps)
  apply (subst processQueue.simps)
  apply (simp add: fetch_simps sim_simps no_cache_def manager_a_def queued_ab_def queueRequest_def
      popOrNull_def)
  done

lemma run_queue_up_down:
  "processQueue (sim\<lparr>dns_resolve := failing_dns_resolve\<rparr>) queued_up_down =
    (Inl (Error ''ResolutionError''),
     manager_a\<lparr>request_queue := [\<lparr>url = ''up.example'', options = no_cache\<rparr>],
               calls := [Fetch ''down.example'' no_cache, Resolve ''down.example'']\<rparr>)"
  apply (subst processQueue.simps)
  apply (simp add: fetch_simps sim_simps failing_dns_resolve_def no_cache_def manager_a_def
      queued_up_down_def queueRequest_def popOrNull_def)
  done

text \<open>
  C8, as the source has it. In one pass of \<open>processQueue\<close> every entry of the queue is
  either fetched once, and is then no longer in the queue, or is still in the queue and has
  not been fetched: no entry is fetched twice, and an entry whose fetch fails is gone like
  any other. The pass ends at the first fetch that fails. When the fetch of the entry
  taken from the queue fails, the pass returns that error and the state that fetch left:
  the other entries are still queued and none of them has been fetched. When it succeeds,
  the pass goes on as a pass over the other entries. So a pass over a queue holding an
  entry whose fetch fails in every state returns an error, and whenever the pass returns
  an error it is the error of a fetch of a queued entry, with nothing done after it. A
  pass that returns no error leaves the queue empty.
\<close>

theorem processQueue_at_most_once:
  fixes X :: "('h, 'd, 'c, 'k, 'p, 'q, 'r) Collaborators"
    and self :: "('h, 'd, 'c, 'k, 'p) NetworkManager"
  assumes run: "processQueue X self = (out, after)"
  shows "mset (fetched (new_calls self after)) + mset (request_queue after) =
           mset (request_queue self) \<and>
         (out = Inr () \<longrightarrow> request_queue after = []) \<and>
         (\<forall>e. out = Inl e \<longrightarrow>
            (\<exists>p s. p \<in> set (request_queue self) \<and>
                   fetch X (url p) (options p) s = (Inl e, after))) \<and>
         (popOrNull (request_queue self) = Some (p, rest) \<and>
          fetch X (url p) (options p) (self\<lparr>request_queue := rest\<rparr>) = (Inl e, s1) \<longrightarrow>
            out = Inl e \<and> after = s1 \<and> request_queue after = rest \<and>
            fetched (new_calls self after) = [p]) \<and>
         (popOrNull (request_queue self) = Some (p, rest) \<and>
          fetch X (url p) (options p) (self\<lparr>request_queue := rest\<rparr>) = (Inr r, s1) \<longrightarrow>
            processQueue X s1 = (out, after) \<and> request_queue s1 = rest) \<and>
         ((\<exists>p \<in> set (request_queue self).
             \<forall>s. \<exists>e s'. fetch X (url p) (options p) s = (Inl e, s')) \<longrightarrow>
            (\<exists>e. out = Inl e))"
proof -
  from processQueue_drain [OF run] obtain evs where
    evs: "calls after = calls self @ evs"
      "mset (fetched evs) + mset (request_queue after) = mset (request_queue self)"
      "out = Inr () \<longrightarrow> request_queue after = []"
      "\<forall>e. out = Inl e \<longrightarrow>
         (\<exists>p s. p \<in> set (request_queue self) \<and> fetch X (url p) (options p) s = (Inl e, after))"
    by blast
  from evs(1) have nc: "new_calls self after = evs"
    by (simp add: new_calls_def)
  have 1: "mset (fetched (new_calls self after)) + mset (request_queue after) =
           mset (request_queue self)"
    using evs(2) nc by simp
  have 4: "popOrNull (request_queue self) = Some (p, rest) \<and>
          fetch X (url p) (options p) (self\<lparr>request_queue := rest\<rparr>) = (Inl e, s1) \<longrightarrow>
            out = Inl e \<and> after = s1 \<and> request_queue after = rest \<and>
            fetched (new_calls self after) = [p]"
    using processQueue_failed_step [OF run] by blast
  have 5: "popOrNull (request_queue self) = Some (p, rest) \<and>
          fetch X (url p) (options p) (self\<lparr>request_queue := rest\<rparr>) = (Inr r, s1) \<longrightarrow>
            processQueue X s1 = (out, after) \<and> request_queue s1 = rest"
    using processQueue_succeeded_step [OF run] by blast
  have 6: "(\<exists>p \<in> set (request_queue self).
             \<forall>s. \<exists>e s'. fetch X (url p) (options p) s = (Inl e, s')) \<longrightarrow>
            (\<exists>e. out = Inl e)"
    using processQueue_failing_entry [OF run] by blast
  from 1 evs(3,4) 4 5 6 show ?thesis by (intro conjI)
qed

theorem processQueue_at_most_once_witness:
  "fst (processQueue (sim\<lparr>dns_resolve := failing_dns_resolve\<rparr>) queued_up_down) =
     Inl (Error ''ResolutionError'') \<and>
   request_queue (snd (processQueue (sim\<lparr>dns_resolve := failing_dns_resolve\<rparr>) queued_up_down)) =
     [\<lparr>url = ''up.example'', options = no_cache\<rparr>] \<and>
   fetched (new_calls queued_up_down
     (snd (processQueue (sim\<lparr>dns_resolve := failing_dns_resolve\<rparr>) queued_up_down))) =
     [\<lparr>url = ''down.example'', options = no_cache\<rparr>]"
proof -
  let ?X = "sim\<lparr>dns_resolve := failing_dns_resolve\<rparr>"
  have run: "processQueue ?X queued_up_down =
      (fst (processQueue ?X queued_up_down), snd (processQueue ?X queued_up_down))"
    by (simp del: processQueue.simps)
  have pop: "popOrNull (request_queue queued_up_down) =
      Some (\<lparr>url = ''down.example'', options = no_cache\<rparr>,
            [\<lparr>url = ''up.example'', options = no_cache\<rparr>])"
    by (simp add: popOrNull_def queued_up_down_def queueRequest_def manager_a_def)
  have f: "fetch ?X (url \<lparr>url = ''down.example'', options = no_cache\<rparr>)
        (options \<lparr>url = ''down.example'', options = no_cache\<rparr>)
        (queued_up_down\<lparr>request_queue := [\<lparr>url = ''up.example'', options = no_cache\<rparr>]\<rparr>) =
      (Inl (Error ''ResolutionError''),
       manager_a\<lparr>request_queue := [\<lparr>url = ''up.example'', options = no_cache\<rparr>],
               calls := [Fetch ''down.example'' no_cache, Resolve ''down.example'']\<rparr>)"
    by (simp add: fetch_simps sim_simps failing_dns_resolve_def no_cache_def manager_a_def
        queued_up_down_def queueRequest_def)
  note step = processQueue_at_most_once [OF run,
      where p = "\<lparr>url = ''down.example'', options = no_cache\<rparr>"
        and rest = "[\<lparr>url = ''up.example'', options = no_cache\<rparr>]"
        and e = "Error ''ResolutionError''"
        and ?s1.0 = "manager_a\<lparr>request_queue := [\<lparr>url = ''up.example'', options = no_cache\<rparr>],
               calls := [Fetch ''down.example'' no_cache, Resolve ''down.example'']\<rparr>",
      THEN conjunct2, THEN conjunct2, THEN conjunct2, THEN conjunct1, THEN mp, OF conjI [OF pop f]]
  from step show ?thesis
    by (elim conjE) (intro conjI; assumption)
qed

text \<open>
  The claim as stated fails: with \<open>''up.example''\<close> queued before \<open>''down.example''\<close>
  and a resolver that fails for \<open>''down.example''\<close>, the pass returns the resolution
  error after the one failing fetch; \<open>''up.example''\<close> is not fetched in that pass and is
  still in the queue.
\<close>

theorem processQueue_stops_counterexample:
  "request_queue queued_up_down =
     [\<lparr>url = ''up.example'', options = no_cache\<rparr>, \<lparr>url = ''down.example'', options = no_cache\<rparr>] \<and>
   fst (processQueue (sim\<lparr>dns_resolve := failing_dns_resolve\<rparr>) queued_up_down) =
     Inl (Error ''ResolutionError'') \<and>
   request_queue (snd (processQueue (sim\<lparr>dns_resolve := failing_dns_resolve\<rparr>) queued_up_down)) =
     [\<lparr>url = ''up.example'', options = no_cache\<rparr>] \<and>
   fetched (calls (snd (processQueue (sim\<lparr>dns_resolve := failing_dns_resolve\<rparr>) queued_up_down))) =
     [\<lparr>url = ''down.example'', options = no_cache\<rparr>]"
  unfolding run_queue_up_down
  by (simp add: queued_up_down_def queueRequest_def manager_a_def)

text \<open>
  C3 on the source: \<open>queueRequest\<close> appends at the end of the list and \<open>processQueue\<close>
  pops from the end. With \<open>''/a''\<close> queued first and \<open>''/b''\<close> second, and every fetch
  succeeding, the pass fetches \<open>''/b''\<close> first and \<open>''/a''\<close> second.
\<close>

theorem processQueue_newest_first:
  "request_queue queued_ab =
     [\<lparr>url = ''/a'', options = no_cache\<rparr>, \<lparr>url = ''/b'', options = no_cache\<rparr>] \<and>
   fst (processQueue sim queued_ab) = Inr () \<and>
   fetched (calls (snd (processQueue sim queued_ab))) =
     [\<lparr>url = ''/b'', options = no_cache\<rparr>, \<lparr>url = ''/a'', options = no_cache\<rparr>] \<and>
   request_queue (snd (processQueue sim queued_ab)) = []"
  unfolding run_queue_ab
  by (simp add: queued_ab_def queueRequest_def manager_a_def)

subsection \<open>Retry and backoff\<close>








subsection \<open>The pool has no ceiling\<close>

lemma busy_connections_acquires:
  "length (busy_connections self busy (replicate n (PAcquire ip ssl))) = length busy + n"
  by (induction n arbitrary: self busy) (simp_all add: acquire_def)

text \<open>
  C4, as the source has it. The pool keeps no state: \<open>init\<close> and \<open>setMaxConnections\<close>
  succeed and drop the ceiling they are given, \<open>acquire\<close> hands out a connection at once
  in every state, \<open>release\<close> changes nothing and \<open>activeConnections\<close> is 0. So after
  \<open>n\<close> acquisitions without a release, \<open>n\<close> more connections are busy, for every
  \<open>n\<close>: no ceiling, global or per destination, bounds them.
\<close>

theorem pool_without_ceiling:
  "init max_connections = Inr ConnectionPool \<and>
   acquire ip ssl self = (Inr undefined_ptr, self) \<and>
   release conn self = self \<and>
   setMaxConnections max_connections self = (Inr (), self) \<and>
   activeConnections self = 0 \<and>
   length (busy_connections self busy (replicate n (PAcquire ip ssl))) = length busy + n"
  by (simp add: init_def acquire_def release_def setMaxConnections_def activeConnections_def
      busy_connections_acquires)

text \<open>
  The claim as stated fails: a pool initialised with the ceiling 1 hands out two
  connections to the same destination with no release in between.
\<close>

theorem pool_ceiling_counterexample:
  "init 1 = Inr ConnectionPool \<and>
   busy_connections ConnectionPool []
     [PAcquire ''10.0.0.1'' True, PAcquire ''10.0.0.1'' True] = [undefined_ptr, undefined_ptr] \<and>
   \<not> length (busy_connections ConnectionPool []
     [PAcquire ''10.0.0.1'' True, PAcquire ''10.0.0.1'' True]) \<le> 1"
  by (simp add: init_def acquire_def)

end
